theory Spec2Isabelle
  imports Main "HOL-Library.Word"
begin

section \<open>Vulkan command buffers of FlaxEngine: CmdBufferVulkan.cpp\<close>

text \<open>
  A shallow embedding of \<^verbatim>\<open>Source/Engine/GraphicsDevice/Vulkan/CmdBufferVulkan.cpp\<close>:
  the command buffer (\<^verbatim>\<open>CmdBufferVulkan\<close>), the pool that owns the buffers
  (\<^verbatim>\<open>CmdBufferPoolVulkan\<close>) and the manager that rotates them
  (\<^verbatim>\<open>CmdBufferManagerVulkan\<close>).

  Every member function becomes a function from the state before the call to an
  \<open>outcome\<close>: the state after the call, or the failed \<^verbatim>\<open>ASSERT\<close> together with the
  state the program had reached when the assertion was evaluated. Calls that leave
  the file (the Vulkan API, the queue, the timer queries) are appended to a trace kept
  in the device, in the order the code issues them. The Vulkan calls are taken to
  succeed, so that \<^verbatim>\<open>VALIDATE_VULKAN_RESULT\<close> passes.
\<close>

subsection \<open>Configuration\<close>

text \<open>
  The two preprocessor switches the file tests, and the two extension entry points
  \<^verbatim>\<open>vkCmdBeginDebugUtilsLabelEXT\<close> and \<^verbatim>\<open>vkCmdEndDebugUtilsLabelEXT\<close>, which are
  function pointers that stay null when the debug-utils extension is not loaded.
\<close>

record config =
  VULKAN_USE_DESCRIPTOR_POOL_MANAGER :: bool
  GPU_ALLOW_PROFILE_EVENTS :: bool
  vkCmdBeginDebugUtilsLabelEXT :: bool
  vkCmdEndDebugUtilsLabelEXT :: bool

subsection \<open>Data\<close>

type_synonym VkCommandBuffer = nat
type_synonym VkPipelineStageFlags = "32 word"
type_synonym SemaphoreVulkan = nat
type_synonym DescriptorPoolSetContainerVulkan = nat
type_synonym GPUTimerQueryVulkan = nat

text \<open>\<^verbatim>\<open>CmdBufferVulkan::State\<close>, in the order of the enumeration.\<close>

datatype State = ReadyForBegin | IsInsideBegin | IsInsideRenderPass | HasEnded | Submitted

text \<open>
  The assertions of the file, one constructor for each \<^verbatim>\<open>ASSERT\<close>;
  \<open>Invalid_Pointer\<close> for a buffer pointer that designates no buffer of the pool; and
  \<open>Null_Function_Pointer\<close> for a call through an extension entry point that is null,
  where the program crashes.
\<close>

datatype error =
    Assert_Not_WaitSemaphores_Contains
  | Assert_State_ReadyForBegin
  | Assert_IsOutsideRenderPass
  | Assert_IsInsideRenderPass
  | Assert_Not_CurrentDescriptorPoolSetContainer
  | Assert_Not_Fence_IsSignaled
  | Assert_ActiveCmdBuffer
  | Assert_State_Submitted
  | Assert_HasEnded
  | Invalid_Pointer
  | Null_Function_Pointer

datatype 's outcome = Done 's | Abort error 's

definition bind :: "'s outcome \<Rightarrow> ('s \<Rightarrow> 's outcome) \<Rightarrow> 's outcome" where
  "bind r f = (case r of Done s \<Rightarrow> f s | Abort e s \<Rightarrow> Abort e s)"

text \<open>
  A call that leaves the file. A command buffer is named by its native handle in the
  Vulkan calls and by its position in the pool where the code passes the
  \<^verbatim>\<open>CmdBufferVulkan*\<close> itself.
\<close>

datatype call =
    VkAllocateCommandBuffers VkCommandBuffer
  | VkBeginCommandBuffer VkCommandBuffer
  | VkEndCommandBuffer VkCommandBuffer
  | VkCmdBeginRenderPass VkCommandBuffer
  | VkCmdEndRenderPass VkCommandBuffer
  | VkCmdBeginDebugUtilsLabelEXT VkCommandBuffer string
  | VkCmdEndDebugUtilsLabelEXT VkCommandBuffer
  | VkResetCommandBuffer VkCommandBuffer
  | Queue_Submit_call nat "SemaphoreVulkan option"
  | Query_Interrupt GPUTimerQueryVulkan nat
  | Query_Resume GPUTimerQueryVulkan nat

text \<open>
  Modelled from the spec: the fence and its manager (\<^verbatim>\<open>FenceVulkan\<close>,
  \<^verbatim>\<open>FenceManagerVulkan\<close>) are not under src/. The spec gives
  \<^verbatim>\<open>IsFenceSignaled(fenceRef) -> bool\<close> and \<^verbatim>\<open>ResetFence(fenceRef)\<close>, which
  resets the fence for reuse: a fence is its completion signal, polling reads it and
  resetting clears it. The GPU raises the signal from outside (\<open>SignalFence\<close>).
\<close>

record FenceVulkan =
  Signaled :: bool

definition IsSignaled :: "FenceVulkan \<Rightarrow> bool" where
  "IsSignaled f = Signaled f"

definition IsFenceSignaled :: "FenceVulkan \<Rightarrow> bool" where
  "IsFenceSignaled f = Signaled f"

definition ResetFence :: "FenceVulkan \<Rightarrow> FenceVulkan" where
  "ResetFence f = f\<lparr>Signaled := False\<rparr>"

definition AllocateFence :: FenceVulkan where
  "AllocateFence = \<lparr>Signaled = False\<rparr>"

definition SignalFence :: "FenceVulkan \<Rightarrow> FenceVulkan" where
  "SignalFence f = f\<lparr>Signaled := True\<rparr>"

text \<open>
  The device, as far as this file uses it: the trace of the calls issued so far, the
  number of native command buffers allocated (the next handle), and the state of the
  descriptor pools manager (the containers leased, and how many were created).
\<close>

record GPUDeviceVulkan =
  trace :: "call list"
  AllocatedCommandBuffers :: nat
  LeasedPoolSets :: "DescriptorPoolSetContainerVulkan list"
  CreatedPoolSets :: nat

definition issue :: "call \<Rightarrow> GPUDeviceVulkan \<Rightarrow> GPUDeviceVulkan" where
  "issue c d = d\<lparr>trace := trace d @ [c]\<rparr>"

text \<open>
  Modelled from the spec: \<^verbatim>\<open>DescriptorPoolsManager\<close> is not under src/. The spec
  gives \<^verbatim>\<open>AcquirePoolSetContainer() -> leaseRef\<close> and \<^verbatim>\<open>ReleasePoolSet(leaseRef)\<close>:
  the manager keeps the containers that are leased, acquiring leases a container that
  is not leased yet, releasing takes it back.
\<close>

definition AcquirePoolSetContainer ::
  "GPUDeviceVulkan \<Rightarrow> GPUDeviceVulkan \<times> DescriptorPoolSetContainerVulkan" where
  "AcquirePoolSetContainer d =
     (d\<lparr>LeasedPoolSets := LeasedPoolSets d @ [CreatedPoolSets d],
        CreatedPoolSets := Suc (CreatedPoolSets d)\<rparr>, CreatedPoolSets d)"

definition ReleasePoolSet ::
  "DescriptorPoolSetContainerVulkan \<Rightarrow> GPUDeviceVulkan \<Rightarrow> GPUDeviceVulkan" where
  "ReleasePoolSet c d = d\<lparr>LeasedPoolSets := removeAll c (LeasedPoolSets d)\<rparr>"

text \<open>
  Modelled from the spec: the declaration of the class \<^verbatim>\<open>CmdBufferVulkan\<close>
  (CmdBufferVulkan.h) is not under src/. The fields are those the member functions of
  CmdBufferVulkan.cpp read and write, under their names there. \<^verbatim>\<open>_eventsBegin\<close> is
  the nesting counter the spec calls \<open>eventDepth\<close> and asks never to be negative: a
  signed 32-bit integer, kept as its 32 bits and read with \<open>sint\<close>. The two fence
  counters are unsigned 64-bit integers. The fence is owned by the fence manager and
  used by this buffer only; it is kept with the buffer that points to it.
\<close>

record CmdBufferVulkan =
  CommandBufferHandle :: VkCommandBuffer
  state :: State
  fence :: FenceVulkan
  FenceSignaledCounter :: "64 word"
  SubmittedFenceCounter :: "64 word"
  WaitFlags :: "VkPipelineStageFlags list"
  WaitSemaphores :: "SemaphoreVulkan list"
  SubmittedWaitSemaphores :: "SemaphoreVulkan list"
  CurrentDescriptorPoolSetContainer :: "DescriptorPoolSetContainerVulkan option"
  eventsBegin :: "32 word"

text \<open>
  Modelled from the spec: the state predicates are inline members of the class
  declaration, which is not under src/. The spec reads them as "currently inside a
  render pass", "not currently inside a render pass", "has begun recording" and
  "already submitted".
\<close>

definition CmdBuffer_IsInsideRenderPass :: "CmdBufferVulkan \<Rightarrow> bool" where
  "CmdBuffer_IsInsideRenderPass b = (state b = IsInsideRenderPass)"

definition CmdBuffer_IsOutsideRenderPass :: "CmdBufferVulkan \<Rightarrow> bool" where
  "CmdBuffer_IsOutsideRenderPass b = (state b \<noteq> IsInsideRenderPass)"

definition CmdBuffer_HasBegun :: "CmdBufferVulkan \<Rightarrow> bool" where
  "CmdBuffer_HasBegun b = (state b = IsInsideBegin \<or> state b = IsInsideRenderPass)"

definition CmdBuffer_IsSubmitted :: "CmdBufferVulkan \<Rightarrow> bool" where
  "CmdBuffer_IsSubmitted b = (state b = Submitted)"

subsection \<open>CmdBufferVulkan\<close>

text \<open>
  \<^verbatim>\<open>AddWaitSemaphore\<close>: the flags are added first, then the assertion is evaluated,
  then the semaphore is added. \<^verbatim>\<open>Array::Add\<close> appends.
\<close>

definition AddWaitSemaphore ::
  "VkPipelineStageFlags \<Rightarrow> SemaphoreVulkan \<Rightarrow> CmdBufferVulkan \<Rightarrow> CmdBufferVulkan outcome" where
  "AddWaitSemaphore waitFlags waitSemaphore b =
     (let b1 = b\<lparr>WaitFlags := WaitFlags b @ [waitFlags]\<rparr> in
      if waitSemaphore \<in> set (WaitSemaphores b1)
      then Abort Assert_Not_WaitSemaphores_Contains b1
      else Done (b1\<lparr>WaitSemaphores := WaitSemaphores b1 @ [waitSemaphore]\<rparr>))"

definition AcquirePoolSet ::
  "GPUDeviceVulkan \<times> CmdBufferVulkan \<Rightarrow> (GPUDeviceVulkan \<times> CmdBufferVulkan) outcome" where
  "AcquirePoolSet s =
     (case s of (d, b) \<Rightarrow>
        if CurrentDescriptorPoolSetContainer b \<noteq> None
        then Abort Assert_Not_CurrentDescriptorPoolSetContainer (d, b)
        else (case AcquirePoolSetContainer d of
                (d1, c) \<Rightarrow> Done (d1, b\<lparr>CurrentDescriptorPoolSetContainer := Some c\<rparr>)))"

definition Begin ::
  "config \<Rightarrow> GPUDeviceVulkan \<times> CmdBufferVulkan \<Rightarrow> (GPUDeviceVulkan \<times> CmdBufferVulkan) outcome" where
  "Begin cfg s =
     (case s of (d, b) \<Rightarrow>
        if state b \<noteq> ReadyForBegin then Abort Assert_State_ReadyForBegin (d, b)
        else bind
          (let d1 = issue (VkBeginCommandBuffer (CommandBufferHandle b)) d in
           if VULKAN_USE_DESCRIPTOR_POOL_MANAGER cfg \<and> CurrentDescriptorPoolSetContainer b = None
           then AcquirePoolSet (d1, b) else Done (d1, b))
          (\<lambda>(d2, b2).
             let b3 = b2\<lparr>state := IsInsideBegin\<rparr> in
             Done (d2, if GPU_ALLOW_PROFILE_EVENTS cfg then b3\<lparr>eventsBegin := 0\<rparr> else b3)))"

text \<open>
  The loop of \<^verbatim>\<open>End\<close>, \<^verbatim>\<open>while (_eventsBegin--) vkCmdEndDebugUtilsLabelEXT(GetHandle());\<close>
  The condition reads the counter, decrements it, and tests the value read: the
  decrement is also done by the test that leaves the loop. The body calls through the
  entry point without testing it: when the value read is not zero and the entry point
  is null, the program crashes there, the counter already decremented.
\<close>

function End_events ::
  "config \<Rightarrow> GPUDeviceVulkan \<times> CmdBufferVulkan \<Rightarrow> (GPUDeviceVulkan \<times> CmdBufferVulkan) outcome" where
  "End_events cfg (d, b) =
     (if eventsBegin b \<noteq> 0
      then if \<not> vkCmdEndDebugUtilsLabelEXT cfg
           then Abort Null_Function_Pointer (d, b\<lparr>eventsBegin := eventsBegin b - 1\<rparr>)
           else End_events cfg (issue (VkCmdEndDebugUtilsLabelEXT (CommandBufferHandle b)) d,
                                b\<lparr>eventsBegin := eventsBegin b - 1\<rparr>)
      else Done (d, b\<lparr>eventsBegin := eventsBegin b - 1\<rparr>))"
  by pat_completeness auto
termination
  by (relation "measure (\<lambda>(cfg, d, b). unat (eventsBegin b))")
     (auto simp: unat_minus_one unat_gt_0 intro: diff_less)

definition End ::
  "config \<Rightarrow> GPUDeviceVulkan \<times> CmdBufferVulkan \<Rightarrow> (GPUDeviceVulkan \<times> CmdBufferVulkan) outcome" where
  "End cfg s =
     (case s of (d, b) \<Rightarrow>
        if \<not> CmdBuffer_IsOutsideRenderPass b then Abort Assert_IsOutsideRenderPass (d, b)
        else bind (if GPU_ALLOW_PROFILE_EVENTS cfg then End_events cfg (d, b) else Done (d, b))
               (\<lambda>(d1, b1).
                  Done (issue (VkEndCommandBuffer (CommandBufferHandle b1)) d1,
                        b1\<lparr>state := HasEnded\<rparr>)))"

definition BeginRenderPass ::
  "GPUDeviceVulkan \<times> CmdBufferVulkan \<Rightarrow> (GPUDeviceVulkan \<times> CmdBufferVulkan) outcome" where
  "BeginRenderPass s =
     (case s of (d, b) \<Rightarrow>
        if \<not> CmdBuffer_IsOutsideRenderPass b then Abort Assert_IsOutsideRenderPass (d, b)
        else Done (issue (VkCmdBeginRenderPass (CommandBufferHandle b)) d,
                   b\<lparr>state := IsInsideRenderPass\<rparr>))"

definition EndRenderPass ::
  "GPUDeviceVulkan \<times> CmdBufferVulkan \<Rightarrow> (GPUDeviceVulkan \<times> CmdBufferVulkan) outcome" where
  "EndRenderPass s =
     (case s of (d, b) \<Rightarrow>
        if \<not> CmdBuffer_IsInsideRenderPass b then Abort Assert_IsInsideRenderPass (d, b)
        else Done (issue (VkCmdEndRenderPass (CommandBufferHandle b)) d,
                   b\<lparr>state := IsInsideBegin\<rparr>))"

text \<open>
  \<^verbatim>\<open>BeginEvent\<close> and \<^verbatim>\<open>EndEvent\<close> (compiled under \<^verbatim>\<open>GPU_ALLOW_PROFILE_EVENTS\<close>).
  The label is the first 100 characters of the name.
\<close>

definition BeginEvent ::
  "config \<Rightarrow> string \<Rightarrow> GPUDeviceVulkan \<times> CmdBufferVulkan \<Rightarrow> (GPUDeviceVulkan \<times> CmdBufferVulkan) outcome" where
  "BeginEvent cfg name s =
     (case s of (d, b) \<Rightarrow>
        if \<not> vkCmdBeginDebugUtilsLabelEXT cfg then Done (d, b)
        else Done (issue (VkCmdBeginDebugUtilsLabelEXT (CommandBufferHandle b) (take 100 name)) d,
                   b\<lparr>eventsBegin := eventsBegin b + 1\<rparr>))"

definition EndEvent ::
  "config \<Rightarrow> GPUDeviceVulkan \<times> CmdBufferVulkan \<Rightarrow> (GPUDeviceVulkan \<times> CmdBufferVulkan) outcome" where
  "EndEvent cfg s =
     (case s of (d, b) \<Rightarrow>
        if eventsBegin b = 0 \<or> \<not> vkCmdEndDebugUtilsLabelEXT cfg then Done (d, b)
        else Done (issue (VkCmdEndDebugUtilsLabelEXT (CommandBufferHandle b)) d,
                   b\<lparr>eventsBegin := eventsBegin b - 1\<rparr>))"

definition RefreshFenceStatus ::
  "config \<Rightarrow> GPUDeviceVulkan \<times> CmdBufferVulkan \<Rightarrow> (GPUDeviceVulkan \<times> CmdBufferVulkan) outcome" where
  "RefreshFenceStatus cfg s =
     (case s of (d, b) \<Rightarrow>
        if state b = Submitted then
          if IsFenceSignaled (fence b) then
            let b1 = b\<lparr>state := ReadyForBegin\<rparr>;
                b2 = b1\<lparr>SubmittedWaitSemaphores := []\<rparr>;
                d1 = issue (VkResetCommandBuffer (CommandBufferHandle b2)) d;
                b3 = b2\<lparr>fence := ResetFence (fence b2)\<rparr>;
                b4 = b3\<lparr>FenceSignaledCounter := FenceSignaledCounter b3 + 1\<rparr>
            in if VULKAN_USE_DESCRIPTOR_POOL_MANAGER cfg then
                 (case CurrentDescriptorPoolSetContainer b4 of
                    Some c \<Rightarrow> Done (ReleasePoolSet c d1, b4\<lparr>CurrentDescriptorPoolSetContainer := None\<rparr>)
                  | None \<Rightarrow> Done (d1, b4))
               else Done (d1, b4)
          else Done (d, b)
        else if IsSignaled (fence b) then Abort Assert_Not_Fence_IsSignaled (d, b)
        else Done (d, b))"

text \<open>
  The constructor: a native command buffer is allocated from the device, the state is
  \<^verbatim>\<open>ReadyForBegin\<close>, both counters are 0 and the fence is a new one.
\<close>

definition CmdBufferVulkan_new :: "GPUDeviceVulkan \<Rightarrow> GPUDeviceVulkan \<times> CmdBufferVulkan" where
  "CmdBufferVulkan_new d =
     (let h = AllocatedCommandBuffers d in
      (issue (VkAllocateCommandBuffers h) (d\<lparr>AllocatedCommandBuffers := Suc h\<rparr>),
       \<lparr>CommandBufferHandle = h, state = ReadyForBegin, fence = AllocateFence,
        FenceSignaledCounter = 0, SubmittedFenceCounter = 0,
        WaitFlags = [], WaitSemaphores = [], SubmittedWaitSemaphores = [],
        CurrentDescriptorPoolSetContainer = None, eventsBegin = 0\<rparr>))"

text \<open>
  Modelled from the spec: \<^verbatim>\<open>QueueVulkan::Submit\<close> is not under src/. The spec has a
  buffer go to \<^verbatim>\<open>Submitted\<close> from \<^verbatim>\<open>HasEnded\<close> only, keeps in
  \<open>submittedWaitSemaphores\<close> the waits that were submitted, and has the submission
  clear the list of waits. The second argument of the call in the trace is the
  optional semaphore to signal.
\<close>

definition Queue_Submit ::
  "nat \<Rightarrow> SemaphoreVulkan option \<Rightarrow> GPUDeviceVulkan \<times> CmdBufferVulkan
     \<Rightarrow> (GPUDeviceVulkan \<times> CmdBufferVulkan) outcome" where
  "Queue_Submit a signalSemaphore s =
     (case s of (d, b) \<Rightarrow>
        if state b \<noteq> HasEnded then Abort Assert_HasEnded (d, b)
        else Done (issue (Queue_Submit_call a signalSemaphore) d,
                   b\<lparr>state := Submitted, SubmittedWaitSemaphores := WaitSemaphores b,
                     WaitSemaphores := [], WaitFlags := []\<rparr>))"

subsection \<open>CmdBufferPoolVulkan and CmdBufferManagerVulkan\<close>

text \<open>
  The manager with its pool. \<open>CmdBuffers\<close> is \<^verbatim>\<open>Pool.CmdBuffers\<close>, the buffers in the
  order of their creation; the pool only ever appends to it, so a
  \<^verbatim>\<open>CmdBufferVulkan*\<close> is the position of the buffer in that array, and
  \<^verbatim>\<open>nullptr\<close> is \<open>None\<close>.
\<close>

record CmdBufferManagerVulkan =
  Device :: GPUDeviceVulkan
  CmdBuffers :: "CmdBufferVulkan list"
  ActiveCmdBuffer :: "nat option"
  QueriesInProgress :: "GPUTimerQueryVulkan list"

definition CmdBufferManagerVulkan_new :: "GPUDeviceVulkan \<Rightarrow> CmdBufferManagerVulkan" where
  "CmdBufferManagerVulkan_new d =
     \<lparr>Device = d, CmdBuffers = [], ActiveCmdBuffer = None, QueriesInProgress = []\<rparr>"

text \<open>
  A member function called through a buffer pointer: it runs on the device and on the
  buffer at that position, and both are written back, also when it aborts.
\<close>

definition call_on ::
  "nat \<Rightarrow> (GPUDeviceVulkan \<times> CmdBufferVulkan \<Rightarrow> (GPUDeviceVulkan \<times> CmdBufferVulkan) outcome)
     \<Rightarrow> CmdBufferManagerVulkan \<Rightarrow> CmdBufferManagerVulkan outcome" where
  "call_on a f m =
     (if a < length (CmdBuffers m) then
        (case f (Device m, CmdBuffers m ! a) of
           Done (d, b) \<Rightarrow> Done (m\<lparr>Device := d, CmdBuffers := (CmdBuffers m)[a := b]\<rparr>)
         | Abort e (d, b) \<Rightarrow> Abort e (m\<lparr>Device := d, CmdBuffers := (CmdBuffers m)[a := b]\<rparr>))
      else Abort Invalid_Pointer m)"

text \<open>\<^verbatim>\<open>CmdBufferPoolVulkan::Create()\<close>: the new buffer is added at the end and returned.\<close>

definition CmdBufferPoolVulkan_Create ::
  "CmdBufferManagerVulkan \<Rightarrow> CmdBufferManagerVulkan \<times> nat" where
  "CmdBufferPoolVulkan_Create m =
     (case CmdBufferVulkan_new (Device m) of
        (d, b) \<Rightarrow> (m\<lparr>Device := d, CmdBuffers := CmdBuffers m @ [b]\<rparr>, length (CmdBuffers m)))"

text \<open>
  The two \<^verbatim>\<open>for\<close> statements over \<^verbatim>\<open>QueriesInProgress\<close>, from index 0 upwards:
  one call to the query for each element, in order.
\<close>

primrec Interrupt_queries ::
  "nat \<Rightarrow> GPUTimerQueryVulkan list \<Rightarrow> GPUDeviceVulkan \<Rightarrow> GPUDeviceVulkan" where
  "Interrupt_queries a [] d = d"
| "Interrupt_queries a (q # qs) d = Interrupt_queries a qs (issue (Query_Interrupt q a) d)"

primrec Resume_queries ::
  "nat \<Rightarrow> GPUTimerQueryVulkan list \<Rightarrow> GPUDeviceVulkan \<Rightarrow> GPUDeviceVulkan" where
  "Resume_queries a [] d = d"
| "Resume_queries a (q # qs) d = Resume_queries a qs (issue (Query_Resume q a) d)"

definition SubmitActiveCmdBuffer ::
  "config \<Rightarrow> SemaphoreVulkan option \<Rightarrow> CmdBufferManagerVulkan \<Rightarrow> CmdBufferManagerVulkan outcome" where
  "SubmitActiveCmdBuffer cfg signalSemaphore m =
     (case ActiveCmdBuffer m of
        None \<Rightarrow> Abort Assert_ActiveCmdBuffer m
      | Some a \<Rightarrow>
          if \<not> a < length (CmdBuffers m) then Abort Invalid_Pointer m
          else if \<not> CmdBuffer_IsSubmitted (CmdBuffers m ! a) \<and> CmdBuffer_HasBegun (CmdBuffers m ! a) then
            bind (if CmdBuffer_IsInsideRenderPass (CmdBuffers m ! a)
                  then call_on a EndRenderPass m else Done m)
              (\<lambda>m1. bind (call_on a (End cfg)
                             (m1\<lparr>Device := Interrupt_queries a (QueriesInProgress m1) (Device m1)\<rparr>))
                 (\<lambda>m2. bind (call_on a (Queue_Submit a signalSemaphore) m2)
                    (\<lambda>m3. Done (m3\<lparr>ActiveCmdBuffer := None\<rparr>))))
          else Done (m\<lparr>ActiveCmdBuffer := None\<rparr>))"

text \<open>
  \<^verbatim>\<open>PrepareForNewActiveCommandBuffer\<close>, from iteration \<open>i\<close> of its loop onwards. A
  buffer found ready is made active and begun, and the function returns from inside
  the loop. After the loop a buffer is created and begun, and the queries are resumed.
\<close>

function PrepareForNewActiveCommandBuffer_from ::
  "config \<Rightarrow> nat \<Rightarrow> CmdBufferManagerVulkan \<Rightarrow> CmdBufferManagerVulkan outcome" where
  "PrepareForNewActiveCommandBuffer_from cfg i m =
     (if i < length (CmdBuffers m) then
        (case call_on i (RefreshFenceStatus cfg) m of
           Abort e m1 \<Rightarrow> Abort e m1
         | Done m1 \<Rightarrow>
             if state (CmdBuffers m1 ! i) = ReadyForBegin
             then call_on i (Begin cfg) (m1\<lparr>ActiveCmdBuffer := Some i\<rparr>)
             else if state (CmdBuffers m1 ! i) \<noteq> Submitted then Abort Assert_State_Submitted m1
             else PrepareForNewActiveCommandBuffer_from cfg (Suc i) m1)
      else
        (case CmdBufferPoolVulkan_Create m of
           (m1, a) \<Rightarrow>
             bind (call_on a (Begin cfg) (m1\<lparr>ActiveCmdBuffer := Some a\<rparr>))
               (\<lambda>m2. Done (m2\<lparr>Device := Resume_queries a (QueriesInProgress m2) (Device m2)\<rparr>))))"
  by pat_completeness auto
termination
  by (relation "measure (\<lambda>(cfg, i, m). length (CmdBuffers m) - i)")
     (auto simp: call_on_def split: if_splits outcome.splits prod.splits)

definition PrepareForNewActiveCommandBuffer ::
  "config \<Rightarrow> CmdBufferManagerVulkan \<Rightarrow> CmdBufferManagerVulkan outcome" where
  "PrepareForNewActiveCommandBuffer cfg m = PrepareForNewActiveCommandBuffer_from cfg 0 m"

definition OnQueryBegin ::
  "GPUTimerQueryVulkan \<Rightarrow> CmdBufferManagerVulkan \<Rightarrow> CmdBufferManagerVulkan" where
  "OnQueryBegin query m = m\<lparr>QueriesInProgress := QueriesInProgress m @ [query]\<rparr>"

text \<open>The GPU completes the work of the buffer at position \<open>a\<close>: its fence is signaled.\<close>

definition GPU_completes :: "nat \<Rightarrow> CmdBufferManagerVulkan \<Rightarrow> CmdBufferManagerVulkan" where
  "GPU_completes a m =
     (if a < length (CmdBuffers m)
      then m\<lparr>CmdBuffers := (CmdBuffers m)[a := (CmdBuffers m ! a)\<lparr>fence := SignalFence (fence (CmdBuffers m ! a))\<rparr>]\<rparr>
      else m)"

subsection \<open>Notions of the specification\<close>

text \<open>
  The spec's words for what the scan of the pool finds: a buffer "still executing"
  is submitted with its fence not signaled; a buffer that "qualifies" is ready for
  begin, or becomes so when its fence status is refreshed.
\<close>

definition still_executing :: "CmdBufferVulkan \<Rightarrow> bool" where
  "still_executing b = (state b = Submitted \<and> \<not> IsFenceSignaled (fence b))"

definition ready_after_refresh :: "CmdBufferVulkan \<Rightarrow> bool" where
  "ready_after_refresh b =
     (state b = ReadyForBegin \<or> (state b = Submitted \<and> IsFenceSignaled (fence b)))"

text \<open>
  The operations on one buffer that change the nesting counter of the debug labels, and
  a sequence of them run in order, stopping at the first failed assertion.
\<close>

datatype operation = Op_Begin | Op_End | Op_BeginEvent string | Op_EndEvent

fun apply_operation ::
  "config \<Rightarrow> operation \<Rightarrow> GPUDeviceVulkan \<times> CmdBufferVulkan
     \<Rightarrow> (GPUDeviceVulkan \<times> CmdBufferVulkan) outcome" where
  "apply_operation cfg Op_Begin s = Begin cfg s"
| "apply_operation cfg Op_End s = End cfg s"
| "apply_operation cfg (Op_BeginEvent name) s = BeginEvent cfg name s"
| "apply_operation cfg Op_EndEvent s = EndEvent cfg s"

primrec run ::
  "config \<Rightarrow> operation list \<Rightarrow> GPUDeviceVulkan \<times> CmdBufferVulkan
     \<Rightarrow> (GPUDeviceVulkan \<times> CmdBufferVulkan) outcome" where
  "run cfg [] s = Done s"
| "run cfg (x # xs) s = bind (apply_operation cfg x s) (run cfg xs)"

subsection \<open>Concrete inputs\<close>

definition cfg_all :: config where
  "cfg_all = \<lparr>VULKAN_USE_DESCRIPTOR_POOL_MANAGER = True, GPU_ALLOW_PROFILE_EVENTS = True,
               vkCmdBeginDebugUtilsLabelEXT = True, vkCmdEndDebugUtilsLabelEXT = True\<rparr>"

definition device0 :: GPUDeviceVulkan where
  "device0 = \<lparr>trace = [], AllocatedCommandBuffers = 0, LeasedPoolSets = [], CreatedPoolSets = 0\<rparr>"

definition device1 :: GPUDeviceVulkan where
  "device1 = \<lparr>trace = [], AllocatedCommandBuffers = 1, LeasedPoolSets = [0], CreatedPoolSets = 1\<rparr>"

text \<open>A buffer as the constructor leaves it.\<close>

definition buffer0 :: CmdBufferVulkan where
  "buffer0 = \<lparr>CommandBufferHandle = 0, state = ReadyForBegin, fence = \<lparr>Signaled = False\<rparr>,
               FenceSignaledCounter = 0, SubmittedFenceCounter = 0,
               WaitFlags = [], WaitSemaphores = [], SubmittedWaitSemaphores = [],
               CurrentDescriptorPoolSetContainer = None, eventsBegin = 0\<rparr>"

text \<open>A submitted buffer that holds a pool set, before and after the GPU has completed it.\<close>

definition buffer_submitted :: CmdBufferVulkan where
  "buffer_submitted = \<lparr>CommandBufferHandle = 0, state = Submitted, fence = \<lparr>Signaled = False\<rparr>,
               FenceSignaledCounter = 0, SubmittedFenceCounter = 0,
               WaitFlags = [], WaitSemaphores = [], SubmittedWaitSemaphores = [5],
               CurrentDescriptorPoolSetContainer = Some 0, eventsBegin = 0\<rparr>"

definition buffer_completed :: CmdBufferVulkan where
  "buffer_completed = \<lparr>CommandBufferHandle = 0, state = Submitted, fence = \<lparr>Signaled = True\<rparr>,
               FenceSignaledCounter = 0, SubmittedFenceCounter = 0,
               WaitFlags = [], WaitSemaphores = [], SubmittedWaitSemaphores = [5],
               CurrentDescriptorPoolSetContainer = Some 0, eventsBegin = 0\<rparr>"

text \<open>A buffer being recorded that waits on semaphore 5.\<close>

definition buffer_waiting :: CmdBufferVulkan where
  "buffer_waiting = \<lparr>CommandBufferHandle = 0, state = IsInsideBegin, fence = \<lparr>Signaled = False\<rparr>,
               FenceSignaledCounter = 0, SubmittedFenceCounter = 0,
               WaitFlags = [1], WaitSemaphores = [5], SubmittedWaitSemaphores = [],
               CurrentDescriptorPoolSetContainer = Some 0, eventsBegin = 0\<rparr>"

text \<open>
  A manager whose pool holds one submitted buffer, still executing or completed, with
  timer query 7 in progress.
\<close>

definition manager_executing :: CmdBufferManagerVulkan where
  "manager_executing = \<lparr>Device = device1, CmdBuffers = [buffer_submitted],
                          ActiveCmdBuffer = None, QueriesInProgress = [7]\<rparr>"

definition manager_completed :: CmdBufferManagerVulkan where
  "manager_completed = \<lparr>Device = device1, CmdBuffers = [buffer_completed],
                          ActiveCmdBuffer = None, QueriesInProgress = [7]\<rparr>"

text \<open>A manager that records into a buffer inside a render pass, two debug labels open.\<close>

definition manager_recording :: CmdBufferManagerVulkan where
  "manager_recording =
     \<lparr>Device = device1,
      CmdBuffers = [buffer_waiting\<lparr>state := IsInsideRenderPass, eventsBegin := 2\<rparr>],
      ActiveCmdBuffer = Some 0, QueriesInProgress = [7]\<rparr>"

section \<open>Properties\<close>

declare End_events.simps [simp del]
declare PrepareForNewActiveCommandBuffer_from.simps [simp del]

subsection \<open>What the member functions do to the state\<close>

lemma call_on_Done:
  "call_on a f m = Done m' \<Longrightarrow>
     a < length (CmdBuffers m) \<and>
     (\<exists>d b. f (Device m, CmdBuffers m ! a) = Done (d, b)
            \<and> m' = m\<lparr>Device := d, CmdBuffers := (CmdBuffers m)[a := b]\<rparr>)"
  by (auto simp: call_on_def split: if_splits outcome.splits prod.splits)

lemma Begin_Done:
  "Begin cfg (d, b) = Done (d', b') \<Longrightarrow> state b = ReadyForBegin \<and> state b' = IsInsideBegin"
  by (auto simp: Begin_def bind_def AcquirePoolSet_def AcquirePoolSetContainer_def Let_def
           split: if_splits outcome.splits prod.splits)

lemma call_on_Begin:
  assumes "call_on a (Begin cfg) m = Done m'"
  shows "a < length (CmdBuffers m') \<and> state (CmdBuffers m' ! a) = IsInsideBegin
         \<and> ActiveCmdBuffer m' = ActiveCmdBuffer m
         \<and> length (CmdBuffers m') = length (CmdBuffers m)
         \<and> QueriesInProgress m' = QueriesInProgress m"
proof -
  from call_on_Done[OF assms] obtain d b where
    a: "a < length (CmdBuffers m)" and
    f: "Begin cfg (Device m, CmdBuffers m ! a) = Done (d, b)" and
    m': "m' = m\<lparr>Device := d, CmdBuffers := (CmdBuffers m)[a := b]\<rparr>" by blast
  from Begin_Done[OF f] a m' show ?thesis by simp
qed

lemma RefreshFenceStatus_Done:
  assumes "RefreshFenceStatus cfg (d, b) = Done (d', b')"
  shows "(still_executing b \<and> d' = d \<and> b' = b)
       \<or> (ready_after_refresh b \<and> state b' = ReadyForBegin)
       \<or> (state b' \<noteq> ReadyForBegin \<and> state b' \<noteq> Submitted)"
  using assms
  by (auto simp: RefreshFenceStatus_def Let_def still_executing_def ready_after_refresh_def
           split: if_splits option.splits)

lemma call_on_RefreshFenceStatus:
  assumes "call_on i (RefreshFenceStatus cfg) m = Done m1"
  shows "length (CmdBuffers m1) = length (CmdBuffers m) \<and> i < length (CmdBuffers m) \<and>
       ((still_executing (CmdBuffers m ! i) \<and> m1 = m)
       \<or> (ready_after_refresh (CmdBuffers m ! i) \<and> state (CmdBuffers m1 ! i) = ReadyForBegin)
       \<or> (state (CmdBuffers m1 ! i) \<noteq> ReadyForBegin \<and> state (CmdBuffers m1 ! i) \<noteq> Submitted))"
proof -
  from call_on_Done[OF assms] obtain d b where
    a: "i < length (CmdBuffers m)" and
    f: "RefreshFenceStatus cfg (Device m, CmdBuffers m ! i) = Done (d, b)" and
    m': "m1 = m\<lparr>Device := d, CmdBuffers := (CmdBuffers m)[i := b]\<rparr>" by blast
  from RefreshFenceStatus_Done[OF f] a m' show ?thesis by auto
qed

text \<open>
  With the entry point loaded, or with no label open, the loop of \<^verbatim>\<open>End\<close> closes as
  many labels as the counter says and leaves the counter at \<open>- 1\<close>, the value the
  last test of the condition decrements it to. With a label open and the entry point
  null it crashes at the first call.
\<close>

lemma End_events_eq:
  "vkCmdEndDebugUtilsLabelEXT cfg \<or> eventsBegin b = 0 \<Longrightarrow>
   End_events cfg (d, b) =
     Done (d\<lparr>trace := trace d @ replicate (unat (eventsBegin b))
                                    (VkCmdEndDebugUtilsLabelEXT (CommandBufferHandle b))\<rparr>,
           b\<lparr>eventsBegin := - 1\<rparr>)"
proof (induction "unat (eventsBegin b)" arbitrary: d b)
  case 0
  then have "eventsBegin b = 0" by (simp add: unat_eq_zero)
  then show ?case by (simp add: End_events.simps)
next
  case (Suc n)
  then have nz: "eventsBegin b \<noteq> 0" by auto
  with Suc.prems have p: "vkCmdEndDebugUtilsLabelEXT cfg" by simp
  have "n = unat (eventsBegin (b\<lparr>eventsBegin := eventsBegin b - 1\<rparr>))"
    using Suc(2) nz by (simp add: unat_minus_one)
  from Suc(1)[OF this] p nz Suc(2)[symmetric] show ?case
    by (subst End_events.simps) (simp add: issue_def unat_minus_one replicate_append_same)
qed

lemma End_events_null:
  "\<not> vkCmdEndDebugUtilsLabelEXT cfg \<Longrightarrow> eventsBegin b \<noteq> 0 \<Longrightarrow>
   End_events cfg (d, b) = Abort Null_Function_Pointer (d, b\<lparr>eventsBegin := eventsBegin b - 1\<rparr>)"
  by (subst End_events.simps) simp

lemma End_outside:
  "state b \<noteq> IsInsideRenderPass \<Longrightarrow>
   \<not> GPU_ALLOW_PROFILE_EVENTS cfg \<or> vkCmdEndDebugUtilsLabelEXT cfg \<or> eventsBegin b = 0 \<Longrightarrow>
   End cfg (d, b) =
     Done (d\<lparr>trace := trace d
               @ (if GPU_ALLOW_PROFILE_EVENTS cfg
                  then replicate (unat (eventsBegin b))
                         (VkCmdEndDebugUtilsLabelEXT (CommandBufferHandle b))
                  else [])
               @ [VkEndCommandBuffer (CommandBufferHandle b)]\<rparr>,
           b\<lparr>eventsBegin := (if GPU_ALLOW_PROFILE_EVENTS cfg then - 1 else eventsBegin b),
             state := HasEnded\<rparr>)"
  by (auto simp: End_def End_events_eq bind_def CmdBuffer_IsOutsideRenderPass_def issue_def)

lemma End_null:
  "state b \<noteq> IsInsideRenderPass \<Longrightarrow> GPU_ALLOW_PROFILE_EVENTS cfg \<Longrightarrow>
   \<not> vkCmdEndDebugUtilsLabelEXT cfg \<Longrightarrow> eventsBegin b \<noteq> 0 \<Longrightarrow>
   End cfg (d, b) = Abort Null_Function_Pointer (d, b\<lparr>eventsBegin := eventsBegin b - 1\<rparr>)"
  by (simp add: End_def End_events_null bind_def CmdBuffer_IsOutsideRenderPass_def)

lemma Interrupt_queries_eq:
  "Interrupt_queries a qs d = d\<lparr>trace := trace d @ map (\<lambda>q. Query_Interrupt q a) qs\<rparr>"
  by (induction qs arbitrary: d) (simp_all add: issue_def)

lemma Resume_queries_eq:
  "Resume_queries a qs d = d\<lparr>trace := trace d @ map (\<lambda>q. Query_Resume q a) qs\<rparr>"
  by (induction qs arbitrary: d) (simp_all add: issue_def)

text \<open>The definitions a concrete run unfolds.\<close>

lemmas run_defs =
  PrepareForNewActiveCommandBuffer_def PrepareForNewActiveCommandBuffer_from.simps
  SubmitActiveCmdBuffer_def call_on_def bind_def
  RefreshFenceStatus_def Begin_def End_outside EndRenderPass_def BeginEvent_def EndEvent_def
  AcquirePoolSet_def AcquirePoolSetContainer_def ReleasePoolSet_def Queue_Submit_def
  CmdBufferPoolVulkan_Create_def CmdBufferVulkan_new_def CmdBufferManagerVulkan_new_def
  OnQueryBegin_def GPU_completes_def Interrupt_queries_eq Resume_queries_eq
  IsFenceSignaled_def IsSignaled_def ResetFence_def SignalFence_def AllocateFence_def
  CmdBuffer_HasBegun_def CmdBuffer_IsSubmitted_def CmdBuffer_IsInsideRenderPass_def
  issue_def Let_def
  cfg_all_def device0_def device1_def buffer0_def buffer_submitted_def buffer_completed_def
  buffer_waiting_def manager_executing_def manager_completed_def manager_recording_def

subsection \<open>RefreshFenceStatus\<close>

text \<open>
  C8. On a buffer whose state is not \<^verbatim>\<open>Submitted\<close>, \<^verbatim>\<open>RefreshFenceStatus\<close> fails the
  assertion \<^verbatim>\<open>ASSERT(!_fence->IsSignaled())\<close> (the spec's ConsistencyViolation)
  exactly when the fence is signaled, with nothing changed at that point; when the
  fence is not signaled it returns without an error and without a change.
\<close>

theorem RefreshFenceStatus_not_Submitted:
  "state b \<noteq> Submitted \<Longrightarrow>
   RefreshFenceStatus cfg (d, b) =
     (if IsSignaled (fence b) then Abort Assert_Not_Fence_IsSignaled (d, b) else Done (d, b))"
  by (simp add: RefreshFenceStatus_def)

theorem RefreshFenceStatus_not_Submitted_witness:
  "state buffer0 \<noteq> Submitted
   \<and> state (buffer0\<lparr>fence := SignalFence (fence buffer0)\<rparr>) \<noteq> Submitted
   \<and> RefreshFenceStatus cfg_all (device0, buffer0) = Done (device0, buffer0)
   \<and> RefreshFenceStatus cfg_all (device0, buffer0\<lparr>fence := SignalFence (fence buffer0)\<rparr>)
       = Abort Assert_Not_Fence_IsSignaled (device0, buffer0\<lparr>fence := SignalFence (fence buffer0)\<rparr>)"
  using RefreshFenceStatus_not_Submitted [of buffer0 cfg_all device0]
        RefreshFenceStatus_not_Submitted
          [of "buffer0\<lparr>fence := SignalFence (fence buffer0)\<rparr>" cfg_all device0]
  by (simp add: buffer0_def IsSignaled_def SignalFence_def)

text \<open>
  C4. On a buffer in state \<^verbatim>\<open>Submitted\<close> whose fence is observed signaled,
  \<^verbatim>\<open>RefreshFenceStatus\<close> returns with the buffer in \<^verbatim>\<open>ReadyForBegin\<close>, the submitted
  wait semaphores empty, the native buffer reset (the one call issued), the fence
  reset, the counter of signaled fences one higher (a 64-bit increment), and, where the
  descriptor pool manager is compiled in, the lease cleared and the leased pool set
  taken back by its manager.
\<close>

theorem RefreshFenceStatus_Submitted_signaled:
  assumes "state b = Submitted" and "IsFenceSignaled (fence b)"
  shows "\<exists>d' b'. RefreshFenceStatus cfg (d, b) = Done (d', b')
     \<and> state b' = ReadyForBegin
     \<and> SubmittedWaitSemaphores b' = []
     \<and> trace d' = trace d @ [VkResetCommandBuffer (CommandBufferHandle b)]
     \<and> \<not> IsFenceSignaled (fence b')
     \<and> FenceSignaledCounter b' = FenceSignaledCounter b + 1
     \<and> (VULKAN_USE_DESCRIPTOR_POOL_MANAGER cfg \<longrightarrow>
          CurrentDescriptorPoolSetContainer b' = None
          \<and> (\<forall>c. CurrentDescriptorPoolSetContainer b = Some c \<longrightarrow>
                 LeasedPoolSets d' = removeAll c (LeasedPoolSets d)))"
  using assms
  by (cases "CurrentDescriptorPoolSetContainer b")
     (simp_all add: RefreshFenceStatus_def Let_def issue_def ReleasePoolSet_def
        ResetFence_def IsFenceSignaled_def)

theorem RefreshFenceStatus_Submitted_signaled_witness:
  "state buffer_completed = Submitted \<and> IsFenceSignaled (fence buffer_completed)
   \<and> VULKAN_USE_DESCRIPTOR_POOL_MANAGER cfg_all
   \<and> CurrentDescriptorPoolSetContainer buffer_completed = Some 0
   \<and> (\<exists>d' b'. RefreshFenceStatus cfg_all (device1, buffer_completed) = Done (d', b')
        \<and> state b' = ReadyForBegin \<and> SubmittedWaitSemaphores b' = []
        \<and> trace d' = [VkResetCommandBuffer 0]
        \<and> \<not> IsFenceSignaled (fence b')
        \<and> FenceSignaledCounter b' = 1
        \<and> CurrentDescriptorPoolSetContainer b' = None
        \<and> LeasedPoolSets d' = [])"
  using RefreshFenceStatus_Submitted_signaled [of buffer_completed cfg_all device1]
  by (simp add: buffer_completed_def cfg_all_def device1_def IsFenceSignaled_def)

text \<open>
  C10. \<^verbatim>\<open>RefreshFenceStatus\<close> is idempotent: called twice in succession it leaves the
  device and the buffer (state, submitted wait semaphores, counter, lease and all other
  fields) as one call does, and it fails as one call does where one call fails.
\<close>

theorem RefreshFenceStatus_idempotent:
  "bind (RefreshFenceStatus cfg s) (RefreshFenceStatus cfg) = RefreshFenceStatus cfg s"
proof (cases s)
  case (Pair d b)
  show ?thesis
  proof (cases "state b = Submitted \<and> IsFenceSignaled (fence b)")
    case True
    then show ?thesis unfolding Pair
      by (cases "CurrentDescriptorPoolSetContainer b")
         (simp_all add: RefreshFenceStatus_def bind_def Let_def ResetFence_def
            IsFenceSignaled_def IsSignaled_def)
  next
    case False
    then show ?thesis unfolding Pair
      by (auto simp: RefreshFenceStatus_def bind_def)
  qed
qed

theorem RefreshFenceStatus_idempotent_witness:
  "bind (RefreshFenceStatus cfg_all (device1, buffer_completed)) (RefreshFenceStatus cfg_all)
     = Done (device1\<lparr>trace := [VkResetCommandBuffer 0], LeasedPoolSets := []\<rparr>,
             buffer_completed\<lparr>state := ReadyForBegin, SubmittedWaitSemaphores := [],
               fence := \<lparr>Signaled = False\<rparr>, FenceSignaledCounter := 1,
               CurrentDescriptorPoolSetContainer := None\<rparr>)"
  using RefreshFenceStatus_idempotent [of cfg_all "(device1, buffer_completed)"]
  by (simp add: RefreshFenceStatus_def buffer_completed_def cfg_all_def device1_def
        IsFenceSignaled_def ResetFence_def ReleasePoolSet_def issue_def Let_def)

subsection \<open>AddWaitSemaphore\<close>

text \<open>
  C6, as the claim states it, fails: with semaphore 5 already waited on, the call fails
  the assertion, and the flags have been added by then (\<^verbatim>\<open>WaitFlags.Add\<close> comes before
  the \<^verbatim>\<open>ASSERT\<close>), so \<open>WaitFlags\<close> is not what it was.
\<close>

theorem AddWaitSemaphore_duplicate_counterexample:
  "5 \<in> set (WaitSemaphores buffer_waiting)
   \<and> AddWaitSemaphore 2 5 buffer_waiting
       = Abort Assert_Not_WaitSemaphores_Contains (buffer_waiting\<lparr>WaitFlags := [1, 2]\<rparr>)
   \<and> WaitFlags (buffer_waiting\<lparr>WaitFlags := [1, 2]\<rparr>) \<noteq> WaitFlags buffer_waiting"
  by (simp add: AddWaitSemaphore_def buffer_waiting_def)

text \<open>
  C6, amended. With a semaphore that is already in \<open>WaitSemaphores\<close>, \<^verbatim>\<open>AddWaitSemaphore\<close>
  fails the assertion (the spec's DuplicateResourceError) with \<open>WaitSemaphores\<close> as it
  was and the flags already added to \<open>WaitFlags\<close>. With a semaphore that is not there,
  it adds one element at the end of each of the two arrays, so that their lengths stay
  equal where they were.
\<close>

theorem AddWaitSemaphore_amended:
  "(waitSemaphore \<in> set (WaitSemaphores b) \<longrightarrow>
      (\<exists>b'. AddWaitSemaphore waitFlags waitSemaphore b = Abort Assert_Not_WaitSemaphores_Contains b'
           \<and> WaitSemaphores b' = WaitSemaphores b
           \<and> WaitFlags b' = WaitFlags b @ [waitFlags]))
   \<and> (waitSemaphore \<notin> set (WaitSemaphores b) \<longrightarrow>
      (\<exists>b'. AddWaitSemaphore waitFlags waitSemaphore b = Done b'
           \<and> WaitSemaphores b' = WaitSemaphores b @ [waitSemaphore]
           \<and> WaitFlags b' = WaitFlags b @ [waitFlags]
           \<and> (length (WaitSemaphores b) = length (WaitFlags b)
                \<longrightarrow> length (WaitSemaphores b') = length (WaitFlags b'))))"
  by (simp add: AddWaitSemaphore_def Let_def)

theorem AddWaitSemaphore_amended_witness:
  "5 \<in> set (WaitSemaphores buffer_waiting) \<and> 6 \<notin> set (WaitSemaphores buffer_waiting)
   \<and> length (WaitSemaphores buffer_waiting) = length (WaitFlags buffer_waiting)
   \<and> (\<exists>b'. AddWaitSemaphore 2 5 buffer_waiting = Abort Assert_Not_WaitSemaphores_Contains b'
          \<and> WaitSemaphores b' = [5] \<and> WaitFlags b' = [1, 2])
   \<and> (\<exists>b'. AddWaitSemaphore 2 6 buffer_waiting = Done b'
          \<and> WaitSemaphores b' = [5, 6] \<and> WaitFlags b' = [1, 2]
          \<and> length (WaitSemaphores b') = length (WaitFlags b'))"
  using AddWaitSemaphore_amended [of 5 buffer_waiting 2]
        AddWaitSemaphore_amended [of 6 buffer_waiting 2]
  by (simp add: buffer_waiting_def)

subsection \<open>PrepareForNewActiveCommandBuffer\<close>

lemma Prepare_from_active:
  "PrepareForNewActiveCommandBuffer_from cfg i m = Done m' \<Longrightarrow>
     \<exists>a. ActiveCmdBuffer m' = Some a \<and> a < length (CmdBuffers m')
        \<and> state (CmdBuffers m' ! a) = IsInsideBegin"
proof (induction cfg i m rule: PrepareForNewActiveCommandBuffer_from.induct)
  case (1 cfg i m)
  show ?case
  proof (cases "i < length (CmdBuffers m)")
    case True
    with "1.prems" obtain m1 where
      r: "call_on i (RefreshFenceStatus cfg) m = Done m1" and
      rest: "(if state (CmdBuffers m1 ! i) = ReadyForBegin
              then call_on i (Begin cfg) (m1\<lparr>ActiveCmdBuffer := Some i\<rparr>)
              else if state (CmdBuffers m1 ! i) \<noteq> Submitted then Abort Assert_State_Submitted m1
              else PrepareForNewActiveCommandBuffer_from cfg (Suc i) m1) = Done m'"
      by (subst (asm) PrepareForNewActiveCommandBuffer_from.simps)
         (auto split: outcome.splits)
    show ?thesis
    proof (cases "state (CmdBuffers m1 ! i) = ReadyForBegin")
      case True
      with rest have "call_on i (Begin cfg) (m1\<lparr>ActiveCmdBuffer := Some i\<rparr>) = Done m'" by simp
      from call_on_Begin[OF this] show ?thesis by simp
    next
      case False
      with rest have s: "state (CmdBuffers m1 ! i) = Submitted"
        and "PrepareForNewActiveCommandBuffer_from cfg (Suc i) m1 = Done m'"
        by (auto split: if_splits)
      with "1.IH"[OF True r False] show ?thesis by simp
    qed
  next
    case False
    with "1.prems" obtain m1 a m2 where
      c: "CmdBufferPoolVulkan_Create m = (m1, a)" and
      b: "call_on a (Begin cfg) (m1\<lparr>ActiveCmdBuffer := Some a\<rparr>) = Done m2" and
      m': "m' = m2\<lparr>Device := Resume_queries a (QueriesInProgress m2) (Device m2)\<rparr>"
      by (subst (asm) PrepareForNewActiveCommandBuffer_from.simps)
         (auto simp: bind_def split: outcome.splits prod.splits)
    from call_on_Begin[OF b] m' show ?thesis by simp
  qed
qed

text \<open>
  The scan from position \<open>i\<close>: either some buffer \<open>k\<close> at or after \<open>i\<close> qualifies, all
  buffers from \<open>i\<close> up to it are still executing, and \<open>k\<close> is active and begun in a pool
  of the same size; or all buffers from \<open>i\<close> on are still executing and the active
  buffer is a new one at the end of the pool.
\<close>

lemma Prepare_from_scan:
  "PrepareForNewActiveCommandBuffer_from cfg i m = Done m' \<Longrightarrow>
     (\<exists>k. i \<le> k \<and> k < length (CmdBuffers m)
         \<and> (\<forall>j. i \<le> j \<and> j < k \<longrightarrow> still_executing (CmdBuffers m ! j))
         \<and> ready_after_refresh (CmdBuffers m ! k)
         \<and> ActiveCmdBuffer m' = Some k
         \<and> length (CmdBuffers m') = length (CmdBuffers m)
         \<and> state (CmdBuffers m' ! k) = IsInsideBegin)
     \<or> ((\<forall>j. i \<le> j \<and> j < length (CmdBuffers m) \<longrightarrow> still_executing (CmdBuffers m ! j))
         \<and> ActiveCmdBuffer m' = Some (length (CmdBuffers m))
         \<and> length (CmdBuffers m') = Suc (length (CmdBuffers m))
         \<and> state (CmdBuffers m' ! length (CmdBuffers m)) = IsInsideBegin)"
proof (induction cfg i m rule: PrepareForNewActiveCommandBuffer_from.induct)
  case (1 cfg i m)
  show ?case
  proof (cases "i < length (CmdBuffers m)")
    case True
    with "1.prems" obtain m1 where
      r: "call_on i (RefreshFenceStatus cfg) m = Done m1" and
      rest: "(if state (CmdBuffers m1 ! i) = ReadyForBegin
              then call_on i (Begin cfg) (m1\<lparr>ActiveCmdBuffer := Some i\<rparr>)
              else if state (CmdBuffers m1 ! i) \<noteq> Submitted then Abort Assert_State_Submitted m1
              else PrepareForNewActiveCommandBuffer_from cfg (Suc i) m1) = Done m'"
      by (subst (asm) PrepareForNewActiveCommandBuffer_from.simps)
         (auto split: outcome.splits)
    note rf = call_on_RefreshFenceStatus[OF r]
    show ?thesis
    proof (cases "state (CmdBuffers m1 ! i) = ReadyForBegin")
      case True
      with rest have b: "call_on i (Begin cfg) (m1\<lparr>ActiveCmdBuffer := Some i\<rparr>) = Done m'"
        by simp
      from rf True have q: "ready_after_refresh (CmdBuffers m ! i)"
        by (auto simp: still_executing_def)
      from call_on_Begin[OF b] rf q have
        "i \<le> i \<and> i < length (CmdBuffers m)
         \<and> (\<forall>j. i \<le> j \<and> j < i \<longrightarrow> still_executing (CmdBuffers m ! j))
         \<and> ready_after_refresh (CmdBuffers m ! i)
         \<and> ActiveCmdBuffer m' = Some i
         \<and> length (CmdBuffers m') = length (CmdBuffers m)
         \<and> state (CmdBuffers m' ! i) = IsInsideBegin" by auto
      then show ?thesis by blast
    next
      case False
      with rest have s: "state (CmdBuffers m1 ! i) = Submitted"
        and p: "PrepareForNewActiveCommandBuffer_from cfg (Suc i) m1 = Done m'"
        by (auto split: if_splits)
      from rf s False have e: "still_executing (CmdBuffers m ! i)" and m1: "m1 = m"
        by auto
      have step: "\<And>j k. i \<le> j \<Longrightarrow> j < k \<Longrightarrow>
          (\<forall>j. Suc i \<le> j \<and> j < k \<longrightarrow> still_executing (CmdBuffers m ! j))
          \<Longrightarrow> still_executing (CmdBuffers m ! j)"
        using e by (metis Suc_leI le_neq_implies_less)
      from "1.IH"[OF True r False _ p] s m1 show ?thesis
        by (auto intro: step Suc_leD)
    qed
  next
    case False
    with "1.prems" obtain m1 a m2 where
      c: "CmdBufferPoolVulkan_Create m = (m1, a)" and
      b: "call_on a (Begin cfg) (m1\<lparr>ActiveCmdBuffer := Some a\<rparr>) = Done m2" and
      m': "m' = m2\<lparr>Device := Resume_queries a (QueriesInProgress m2) (Device m2)\<rparr>"
      by (subst (asm) PrepareForNewActiveCommandBuffer_from.simps)
         (auto simp: bind_def split: outcome.splits prod.splits)
    from c have a: "a = length (CmdBuffers m)"
      and l: "length (CmdBuffers m1) = Suc (length (CmdBuffers m))"
      by (auto simp: CmdBufferPoolVulkan_Create_def split: prod.splits)
    from call_on_Begin[OF b] m' a l False show ?thesis by auto
  qed
qed

lemma Prepare_grows:
  assumes "CmdBuffers m = [B1]" and "still_executing B1"
  shows "\<exists>m'. PrepareForNewActiveCommandBuffer cfg m = Done m'
           \<and> ActiveCmdBuffer m' = Some 1 \<and> length (CmdBuffers m') = 2
           \<and> CmdBuffers m' ! 0 = B1 \<and> state (CmdBuffers m' ! 1) = IsInsideBegin"
  using assms
  unfolding PrepareForNewActiveCommandBuffer_def
  apply (subst PrepareForNewActiveCommandBuffer_from.simps)
  apply (simp add: call_on_def RefreshFenceStatus_def still_executing_def)
  apply (subst PrepareForNewActiveCommandBuffer_from.simps)
  apply (simp add: call_on_def CmdBufferPoolVulkan_Create_def CmdBufferVulkan_new_def Let_def
           Begin_def bind_def AcquirePoolSet_def AcquirePoolSetContainer_def issue_def)
  done

lemma Prepare_reuses:
  assumes "CmdBuffers m = B1 # rest" and "state B1 = Submitted" and "IsFenceSignaled (fence B1)"
  shows "\<exists>m'. PrepareForNewActiveCommandBuffer cfg m = Done m'
           \<and> ActiveCmdBuffer m' = Some 0 \<and> length (CmdBuffers m') = length (CmdBuffers m)
           \<and> state (CmdBuffers m' ! 0) = IsInsideBegin \<and> tl (CmdBuffers m') = rest"
  using assms
  unfolding PrepareForNewActiveCommandBuffer_def
  apply (subst PrepareForNewActiveCommandBuffer_from.simps)
  apply (cases "CurrentDescriptorPoolSetContainer B1")
  apply (simp_all add: call_on_def RefreshFenceStatus_def Let_def Begin_def bind_def
           AcquirePoolSet_def AcquirePoolSetContainer_def issue_def ReleasePoolSet_def)
  done

text \<open>
  C3. When \<^verbatim>\<open>PrepareForNewActiveCommandBuffer\<close> returns, either the first buffer of the
  pool, in the order of allocation, that is ready for begin once its fence status is
  refreshed is the active buffer, begun, with all buffers before it still executing
  and no buffer created; or every buffer of the pool is still executing and the active
  buffer is a new one, created at the end of the pool and begun. With the pool holding
  only a submitted buffer whose fence is not signaled, the call returns with a second
  buffer created and active and the first one untouched; with a first buffer that is
  submitted and whose fence is signaled, the call returns with that buffer active and
  begun and the pool no larger.
\<close>

theorem PrepareForNewActiveCommandBuffer_scan:
  "(PrepareForNewActiveCommandBuffer cfg m = Done m' \<longrightarrow>
     (\<exists>k < length (CmdBuffers m).
         (\<forall>j < k. still_executing (CmdBuffers m ! j))
         \<and> ready_after_refresh (CmdBuffers m ! k)
         \<and> ActiveCmdBuffer m' = Some k
         \<and> length (CmdBuffers m') = length (CmdBuffers m)
         \<and> state (CmdBuffers m' ! k) = IsInsideBegin)
     \<or> ((\<forall>j < length (CmdBuffers m). still_executing (CmdBuffers m ! j))
         \<and> ActiveCmdBuffer m' = Some (length (CmdBuffers m))
         \<and> length (CmdBuffers m') = Suc (length (CmdBuffers m))
         \<and> state (CmdBuffers m' ! length (CmdBuffers m)) = IsInsideBegin))
   \<and> (CmdBuffers m = [B1] \<and> still_executing B1 \<longrightarrow>
        (\<exists>m2. PrepareForNewActiveCommandBuffer cfg m = Done m2
           \<and> ActiveCmdBuffer m2 = Some 1 \<and> length (CmdBuffers m2) = 2
           \<and> CmdBuffers m2 ! 0 = B1 \<and> state (CmdBuffers m2 ! 1) = IsInsideBegin))
   \<and> (CmdBuffers m = B1 # rest \<and> state B1 = Submitted \<and> IsFenceSignaled (fence B1) \<longrightarrow>
        (\<exists>m2. PrepareForNewActiveCommandBuffer cfg m = Done m2
           \<and> ActiveCmdBuffer m2 = Some 0 \<and> length (CmdBuffers m2) = length (CmdBuffers m)
           \<and> state (CmdBuffers m2 ! 0) = IsInsideBegin \<and> tl (CmdBuffers m2) = rest))"
proof (intro conjI impI)
  assume "PrepareForNewActiveCommandBuffer cfg m = Done m'"
  then have "PrepareForNewActiveCommandBuffer_from cfg 0 m = Done m'"
    by (simp add: PrepareForNewActiveCommandBuffer_def)
  from Prepare_from_scan[OF this]
  show "(\<exists>k < length (CmdBuffers m).
         (\<forall>j < k. still_executing (CmdBuffers m ! j))
         \<and> ready_after_refresh (CmdBuffers m ! k)
         \<and> ActiveCmdBuffer m' = Some k
         \<and> length (CmdBuffers m') = length (CmdBuffers m)
         \<and> state (CmdBuffers m' ! k) = IsInsideBegin)
     \<or> ((\<forall>j < length (CmdBuffers m). still_executing (CmdBuffers m ! j))
         \<and> ActiveCmdBuffer m' = Some (length (CmdBuffers m))
         \<and> length (CmdBuffers m') = Suc (length (CmdBuffers m))
         \<and> state (CmdBuffers m' ! length (CmdBuffers m)) = IsInsideBegin)"
    by simp
next
  assume "CmdBuffers m = [B1] \<and> still_executing B1"
  then show "\<exists>m2. PrepareForNewActiveCommandBuffer cfg m = Done m2
           \<and> ActiveCmdBuffer m2 = Some 1 \<and> length (CmdBuffers m2) = 2
           \<and> CmdBuffers m2 ! 0 = B1 \<and> state (CmdBuffers m2 ! 1) = IsInsideBegin"
    using Prepare_grows[of m B1 cfg] by simp
next
  assume "CmdBuffers m = B1 # rest \<and> state B1 = Submitted \<and> IsFenceSignaled (fence B1)"
  then show "\<exists>m2. PrepareForNewActiveCommandBuffer cfg m = Done m2
           \<and> ActiveCmdBuffer m2 = Some 0 \<and> length (CmdBuffers m2) = length (CmdBuffers m)
           \<and> state (CmdBuffers m2 ! 0) = IsInsideBegin \<and> tl (CmdBuffers m2) = rest"
    using Prepare_reuses[of m B1 rest cfg] by simp
qed

theorem PrepareForNewActiveCommandBuffer_scan_witness:
  "CmdBuffers manager_executing = [buffer_submitted] \<and> still_executing buffer_submitted
   \<and> (\<exists>m2. PrepareForNewActiveCommandBuffer cfg_all manager_executing = Done m2
         \<and> ActiveCmdBuffer m2 = Some 1 \<and> length (CmdBuffers m2) = 2
         \<and> CmdBuffers m2 ! 0 = buffer_submitted \<and> state (CmdBuffers m2 ! 1) = IsInsideBegin)
   \<and> CmdBuffers manager_completed = [buffer_completed] \<and> state buffer_completed = Submitted
   \<and> IsFenceSignaled (fence buffer_completed)
   \<and> ready_after_refresh (CmdBuffers manager_completed ! 0)
   \<and> (\<exists>m2. PrepareForNewActiveCommandBuffer cfg_all manager_completed = Done m2
         \<and> ActiveCmdBuffer m2 = Some 0 \<and> length (CmdBuffers m2) = 1
         \<and> state (CmdBuffers m2 ! 0) = IsInsideBegin)"
proof -
  obtain m2 where r: "PrepareForNewActiveCommandBuffer cfg_all manager_completed = Done m2"
    by (simp add: run_defs)
  obtain m3 where g: "PrepareForNewActiveCommandBuffer cfg_all manager_executing = Done m3"
    by (simp add: run_defs)
  have e: "CmdBuffers manager_executing = [buffer_submitted] \<and> still_executing buffer_submitted"
    by (simp add: manager_executing_def still_executing_def buffer_submitted_def
          IsFenceSignaled_def)
  have c: "CmdBuffers manager_completed = buffer_completed # []
           \<and> state buffer_completed = Submitted \<and> IsFenceSignaled (fence buffer_completed)"
    by (simp add: manager_completed_def buffer_completed_def IsFenceSignaled_def)
  from r c PrepareForNewActiveCommandBuffer_scan
             [of cfg_all manager_completed m2 buffer_completed "[]"]
  have "ready_after_refresh (CmdBuffers manager_completed ! 0)
        \<and> ActiveCmdBuffer m2 = Some 0 \<and> length (CmdBuffers m2) = 1
        \<and> state (CmdBuffers m2 ! 0) = IsInsideBegin"
    by (auto simp: still_executing_def)
  with r g e c PrepareForNewActiveCommandBuffer_scan
                 [of cfg_all manager_executing m3 buffer_submitted "[]"]
  show ?thesis by auto
qed

text \<open>
  C9. When \<^verbatim>\<open>PrepareForNewActiveCommandBuffer\<close> returns, the active buffer is set, it
  is a buffer of the manager's pool, and its state is \<^verbatim>\<open>IsInsideBegin\<close>.
\<close>

theorem PrepareForNewActiveCommandBuffer_active:
  assumes "PrepareForNewActiveCommandBuffer cfg m = Done m'"
  shows "\<exists>a. ActiveCmdBuffer m' = Some a \<and> a < length (CmdBuffers m')
           \<and> state (CmdBuffers m' ! a) = IsInsideBegin"
  using assms Prepare_from_active[of cfg 0 m m']
  by (simp add: PrepareForNewActiveCommandBuffer_def)

theorem PrepareForNewActiveCommandBuffer_active_witness:
  "\<exists>m'. PrepareForNewActiveCommandBuffer cfg_all manager_executing = Done m'
      \<and> ActiveCmdBuffer m' = Some 1 \<and> 1 < length (CmdBuffers m')
      \<and> state (CmdBuffers m' ! 1) = IsInsideBegin"
proof -
  obtain m' where e: "PrepareForNewActiveCommandBuffer cfg_all manager_executing = Done m'"
    and a: "ActiveCmdBuffer m' = Some 1"
    by (simp add: run_defs)
  from PrepareForNewActiveCommandBuffer_active[OF e] a e show ?thesis by auto
qed

subsection \<open>SubmitActiveCmdBuffer\<close>

text \<open>
  With a debug label open in the active buffer and the entry point that closes labels
  null, \<^verbatim>\<open>SubmitActiveCmdBuffer\<close> does not return: \<^verbatim>\<open>End\<close> crashes at its first
  call through the entry point.
\<close>

lemma SubmitActiveCmdBuffer_null_label:
  assumes "ActiveCmdBuffer m = Some a" and "a < length (CmdBuffers m)"
    and "CmdBuffer_HasBegun (CmdBuffers m ! a)"
    and "GPU_ALLOW_PROFILE_EVENTS cfg" and "\<not> vkCmdEndDebugUtilsLabelEXT cfg"
    and "eventsBegin (CmdBuffers m ! a) \<noteq> 0"
  shows "\<exists>m'. SubmitActiveCmdBuffer cfg signalSemaphore m = Abort Null_Function_Pointer m'"
proof (cases "state (CmdBuffers m ! a) = IsInsideRenderPass")
  case True
  with assms show ?thesis
    by (simp add: SubmitActiveCmdBuffer_def CmdBuffer_HasBegun_def CmdBuffer_IsSubmitted_def
          CmdBuffer_IsInsideRenderPass_def bind_def call_on_def End_null EndRenderPass_def
          issue_def)
next
  case False
  with assms have "state (CmdBuffers m ! a) = IsInsideBegin"
    by (simp add: CmdBuffer_HasBegun_def)
  with assms show ?thesis
    by (simp add: SubmitActiveCmdBuffer_def CmdBuffer_HasBegun_def CmdBuffer_IsSubmitted_def
          CmdBuffer_IsInsideRenderPass_def bind_def call_on_def End_null)
qed



text \<open>
  C1 fails on the code. A manager is created, query 7 begins, a buffer is prepared
  (created: the query is resumed on it), the buffer is submitted (the query is
  interrupted), the GPU completes it, and a buffer is prepared again. The scan finds the
  first buffer ready and returns from inside the loop: the calls issued by the last
  step are the reset and the begin of the buffer, and no \<^verbatim>\<open>Resume\<close> follows the
  \<^verbatim>\<open>Interrupt\<close>, with query 7 still in progress.
\<close>

theorem PrepareForNewActiveCommandBuffer_reuse_without_Resume:
  "\<exists>m'. bind (bind (PrepareForNewActiveCommandBuffer cfg_all
                       (OnQueryBegin 7 (CmdBufferManagerVulkan_new device0)))
                    (SubmitActiveCmdBuffer cfg_all None))
              (\<lambda>m. PrepareForNewActiveCommandBuffer cfg_all (GPU_completes 0 m)) = Done m'
      \<and> trace (Device m') =
          [VkAllocateCommandBuffers 0, VkBeginCommandBuffer 0, Query_Resume 7 0,
           Query_Interrupt 7 0, VkEndCommandBuffer 0, Queue_Submit_call 0 None,
           VkResetCommandBuffer 0, VkBeginCommandBuffer 0]
      \<and> ActiveCmdBuffer m' = Some 0
      \<and> state (CmdBuffers m' ! 0) = IsInsideBegin
      \<and> QueriesInProgress m' = [7]"
  by (simp add: run_defs)

subsection \<open>The nesting counter of the debug labels\<close>

text \<open>
  C7 fails on the code. A manager is created, a buffer is prepared and the active buffer
  is submitted: the counter of the submitted buffer is \<open>- 1\<close>, not zero. The same
  with two debug labels open in the active buffer: \<^verbatim>\<open>End\<close> closes the two labels,
  and the counter of the submitted buffer is \<open>- 1\<close>.
\<close>

theorem SubmitActiveCmdBuffer_eventsBegin_not_zero:
  "(\<exists>m'. bind (PrepareForNewActiveCommandBuffer cfg_all (CmdBufferManagerVulkan_new device0))
               (SubmitActiveCmdBuffer cfg_all None) = Done m'
       \<and> state (CmdBuffers m' ! 0) = Submitted
       \<and> eventsBegin (CmdBuffers m' ! 0) \<noteq> 0
       \<and> sint (eventsBegin (CmdBuffers m' ! 0)) = - 1)
   \<and> (\<exists>m'. SubmitActiveCmdBuffer cfg_all None manager_recording = Done m'
       \<and> eventsBegin (CmdBuffers manager_recording ! 0) = 2
       \<and> state (CmdBuffers m' ! 0) = Submitted
       \<and> eventsBegin (CmdBuffers m' ! 0) \<noteq> 0
       \<and> sint (eventsBegin (CmdBuffers m' ! 0)) = - 1)"
  by (simp add: run_defs)

text \<open>
  C2 fails on the code. On a new buffer, \<^verbatim>\<open>Begin\<close> then \<^verbatim>\<open>End\<close> leaves the counter at
  \<open>- 1\<close>; an \<^verbatim>\<open>EndEvent\<close> after that finds the counter different from zero, closes a
  label and leaves the counter at \<open>- 2\<close>.
\<close>

theorem End_eventsBegin_negative:
  "(\<exists>d b. run cfg_all [Op_Begin, Op_End] (device0, buffer0) = Done (d, b)
          \<and> sint (eventsBegin b) = - 1)
   \<and> (\<exists>d b. run cfg_all [Op_Begin, Op_End, Op_EndEvent] (device0, buffer0) = Done (d, b)
          \<and> sint (eventsBegin b) = - 2)"
  by (simp add: run_defs)

text \<open>
  What holds of the counter: \<^verbatim>\<open>EndEvent\<close> at zero changes nothing, and neither
  \<^verbatim>\<open>BeginEvent\<close> below the largest 32-bit value nor \<^verbatim>\<open>EndEvent\<close> makes a counter
  negative that was not.
\<close>

lemma EndEvent_at_zero:
  "eventsBegin b = 0 \<Longrightarrow> EndEvent cfg (d, b) = Done (d, b)"
  by (simp add: EndEvent_def)

lemma sint_dec:
  assumes "0 \<le> sint (x :: 32 word)"
  shows "sint (x - 1) = sint x - 1"
proof -
  have lt: "sint x < 2 ^ 31" using sint_lt[of x] by simp
  have "sint (x - 1) = signed_take_bit 31 (sint x - 1)"
    by (simp add: sint_word_ariths)
  also have "\<dots> = sint x - 1"
    by (rule signed_take_bit_int_eq_self) (use assms lt in auto)
  finally show ?thesis .
qed

lemma sint_inc:
  assumes "0 \<le> sint (x :: 32 word)" and "sint x < 2 ^ 31 - 1"
  shows "sint (x + 1) = sint x + 1"
proof -
  have "sint (x + 1) = signed_take_bit 31 (sint x + 1)"
    by (simp add: sint_word_ariths)
  also have "\<dots> = sint x + 1"
    by (rule signed_take_bit_int_eq_self) (use assms in auto)
  finally show ?thesis .
qed

lemma sint_pos: "0 \<le> sint (x :: 32 word) \<Longrightarrow> x \<noteq> 0 \<Longrightarrow> 0 < sint x"
  by (metis order_le_less signed_eq_0_iff)

lemma EndEvent_not_negative:
  assumes "0 \<le> sint (eventsBegin b)" and "EndEvent cfg (d, b) = Done (d', b')"
  shows "0 \<le> sint (eventsBegin b')"
  using assms sint_pos[of "eventsBegin b"]
  by (auto simp: EndEvent_def sint_dec split: if_splits)

lemma BeginEvent_not_negative:
  assumes "0 \<le> sint (eventsBegin b)" and "sint (eventsBegin b) < 2 ^ 31 - 1"
    and "BeginEvent cfg name (d, b) = Done (d', b')"
  shows "0 \<le> sint (eventsBegin b')"
  using assms
  by (auto simp: BeginEvent_def sint_inc split: if_splits)

end
